theory Spec2Isabelle
  imports Complex_Main "HOL-Library.Word" "HOL-Library.Multiset"
begin

unbundle bit_operations_syntax

section \<open>Sensor-DSP: a shallow embedding of the C sources\<close>

text \<open>
  Conventions of the embedding.
  \<^item> A \<^verbatim>\<open>float32_t\<close> value is a \<^typ>\<open>real\<close>: arithmetic is exact, and there is no
    rounding, no NaN and no infinity. The one infinite value the sources use, the default
    peak height \<^verbatim>\<open>-INFINITY\<close>, has a constructor of its own.
  \<^item> A buffer reached through a pointer is a function from the element offset to the
    element (the offset is an integer in the peak search, whose indices are \<^verbatim>\<open>int32_t\<close>, and
    a natural number elsewhere); a pointer into a buffer is the buffer and an offset.
    Different pointer arguments are different buffers. A buffer of \<^verbatim>\<open>cfloat32_t\<close> that the
    sources also access as \<^verbatim>\<open>float32_t\<close> is a buffer of \<^verbatim>\<open>float32_t\<close>, the real part of
    element \<open>i\<close> at offset \<open>2 * i\<close> and the imaginary part behind it.
  \<^item> Unsigned C integers are machine words; a counting loop
    \<^verbatim>\<open>for (j = 0; j < n; ++j)\<close> runs its body for \<open>j = 0, ..., unat n - 1\<close>.
    Signed \<^verbatim>\<open>int32_t\<close> values are integers (signed overflow is undefined in C).
  \<^item> \<^verbatim>\<open>assert\<close> is enabled: a failed assertion is the result \<open>Inl AssertionFailed\<close>.
  \<^item> The CMSIS-DSP library the sources call is not part of the repository; each of its
    functions is a parameter of the function that calls it unless stated otherwise.
\<close>

type_synonym float32_t = real

datatype error = AssertionFailed

section \<open>Peak search (ifx\_peak\_search\_f32.c)\<close>

text \<open>The \<^verbatim>\<open>height\<close> option: a finite value, or the default \<^verbatim>\<open>-INFINITY\<close>.\<close>

datatype height_t = NEG_INFINITY | Height float32_t

text \<open>\<^verbatim>\<open>x <= height\<close>.\<close>

fun le_height :: "float32_t \<Rightarrow> height_t \<Rightarrow> bool" where
  "le_height v NEG_INFINITY = False"
| "le_height v (Height h) = (v \<le> h)"

text \<open>\<^verbatim>\<open>FLT_EPSILON\<close> of \<^verbatim>\<open>float.h\<close> for IEEE-754 single precision.\<close>

definition FLT_EPSILON :: float32_t where
  "FLT_EPSILON = 1 / 2 ^ 23"

text \<open>The two scans of \<^verbatim>\<open>get_prominence\<close>: left of the peak down to index 0, right of it up
  to \<open>len - 1\<close>; each stops at the first sample above the peak.\<close>

function prominence_lhs :: "(int \<Rightarrow> float32_t) \<Rightarrow> float32_t \<Rightarrow> int \<Rightarrow> float32_t \<Rightarrow> float32_t" where
  "prominence_lhs x peak_val i min_lhs =
     (if i \<ge> 0 then
        (if x i > peak_val then min_lhs
         else prominence_lhs x peak_val (i - 1) (if x i < min_lhs then x i else min_lhs))
      else min_lhs)"
  by pat_completeness auto
termination
  by (relation "measure (\<lambda>(x, peak_val, i, min_lhs). nat (i + 1))") auto

function prominence_rhs :: "(int \<Rightarrow> float32_t) \<Rightarrow> int \<Rightarrow> float32_t \<Rightarrow> int \<Rightarrow> float32_t \<Rightarrow> float32_t" where
  "prominence_rhs x len peak_val i min_rhs =
     (if i < len then
        (if x i > peak_val then min_rhs
         else prominence_rhs x len peak_val (i + 1) (if x i < min_rhs then x i else min_rhs))
      else min_rhs)"
  by pat_completeness auto
termination
  by (relation "measure (\<lambda>(x, len, peak_val, i, min_rhs). nat (len - i))") auto

definition get_prominence :: "(int \<Rightarrow> float32_t) \<Rightarrow> int \<Rightarrow> int \<Rightarrow> float32_t" where
  "get_prominence x len peak_index =
     (let peak_val = x peak_index;
          min_lhs = prominence_lhs x peak_val (peak_index - 1) peak_val;
          min_rhs = prominence_rhs x len peak_val (peak_index + 1) peak_val
      in if min_rhs > min_lhs then peak_val - min_rhs else peak_val - min_lhs)"

text \<open>The two scans of \<^verbatim>\<open>get_width\<close>: the first crossing on the right sets \<open>width\<close>, the
  first crossing on the left is subtracted from it.\<close>

function width_rhs :: "(int \<Rightarrow> float32_t) \<Rightarrow> int \<Rightarrow> float32_t \<Rightarrow> int \<Rightarrow> int \<Rightarrow> int" where
  "width_rhs x len width_magnitude i width =
     (if i < len then
        (if x i < width_magnitude then i
         else width_rhs x len width_magnitude (i + 1) width)
      else width)"
  by pat_completeness auto
termination
  by (relation "measure (\<lambda>(x, len, width_magnitude, i, width). nat (len - i))") auto

function width_lhs :: "(int \<Rightarrow> float32_t) \<Rightarrow> float32_t \<Rightarrow> int \<Rightarrow> int \<Rightarrow> int" where
  "width_lhs x width_magnitude i width =
     (if i \<ge> 0 then
        (if x i < width_magnitude then width - i
         else width_lhs x width_magnitude (i - 1) width)
      else width)"
  by pat_completeness auto
termination
  by (relation "measure (\<lambda>(x, width_magnitude, i, width). nat (i + 1))") auto

definition get_width :: "(int \<Rightarrow> float32_t) \<Rightarrow> int \<Rightarrow> int \<Rightarrow> float32_t \<Rightarrow> int" where
  "get_width x len peak_index peak_prominence =
     (let width_magnitude = x peak_index - peak_prominence;
          width = width_rhs x len width_magnitude (peak_index + 1) 0
      in width_lhs x width_magnitude (peak_index - 1) width)"

record ifx_peak_search_opts_f32_t =
  height :: height_t
  threshold :: float32_t
  distance :: int
  width :: int

text \<open>The variables the main loop updates.\<close>

record search_state =
  peak_count :: int
  last_peak_index :: int
  peak_indices :: "int \<Rightarrow> int"

text \<open>How one pass through the loop body ends: at \<^verbatim>\<open>continue\<close> or the end of the body, or
  at \<^verbatim>\<open>break\<close>.\<close>

datatype flow = Continue search_state | Break search_state

text \<open>The body of the main loop for candidate \<open>i\<close>.\<close>

definition candidate :: "(int \<Rightarrow> float32_t) \<Rightarrow> int \<Rightarrow> int \<Rightarrow> ifx_peak_search_opts_f32_t
    \<Rightarrow> int \<Rightarrow> search_state \<Rightarrow> flow" where
  "candidate x len max_peaks opts i s =
     (if le_height (x i) (height opts) then Continue s
      else let sample_thresh = x i - threshold opts in
        if sample_thresh < x (i - 1) then Continue s
        else if sample_thresh < x (i + 1) then Continue s
        else
          (case (if peak_count s > 0 \<and> last_peak_index s > i - distance opts
                 then (if x (last_peak_index s) < x i then Some 0 else None)
                 else Some 1) of
             None \<Rightarrow> Continue s
           | Some peak_count_increment \<Rightarrow>
               if width opts > 1 \<and>
                  get_width x len i (get_prominence x len i * 0.5) < width opts
               then Continue s
               else
                 let pc = peak_count s + peak_count_increment;
                     s' = s\<lparr>peak_count := pc,
                            peak_indices := (peak_indices s)(pc := i),
                            last_peak_index := i\<rparr>
                 in if pc + 1 \<ge> max_peaks then Break s' else Continue s'))"

text \<open>The main loop, from candidate \<open>i\<close> on.\<close>

function scan :: "(int \<Rightarrow> float32_t) \<Rightarrow> int \<Rightarrow> int \<Rightarrow> ifx_peak_search_opts_f32_t
    \<Rightarrow> int \<Rightarrow> search_state \<Rightarrow> search_state" where
  "scan x len max_peaks opts i s =
     (if i < len - 1 then
        (case candidate x len max_peaks opts i s of
           Break s' \<Rightarrow> s'
         | Continue s' \<Rightarrow> scan x len max_peaks opts (i + 1) s')
      else s)"
  by pat_completeness auto
termination
  by (relation "measure (\<lambda>(x, len, max_peaks, opts, i, s). nat (len - 1 - i))") auto

text \<open>The options used when \<^verbatim>\<open>opts == NULL\<close>.\<close>

definition default_opts :: ifx_peak_search_opts_f32_t where
  "default_opts = \<lparr>height = NEG_INFINITY, threshold = FLT_EPSILON, distance = 1, width = 1\<rparr>"

text \<open>\<^verbatim>\<open>ifx_peak_search_f32\<close>: the returned count and the index buffer it leaves.\<close>

definition ifx_peak_search_f32 :: "(int \<Rightarrow> float32_t) \<Rightarrow> int \<Rightarrow> (int \<Rightarrow> int) \<Rightarrow> int
    \<Rightarrow> ifx_peak_search_opts_f32_t option \<Rightarrow> int \<times> (int \<Rightarrow> int)" where
  "ifx_peak_search_f32 x len peak_indices0 max_peaks opts =
     (let s = scan x len max_peaks (case opts of None \<Rightarrow> default_opts | Some opt \<Rightarrow> opt) 1
                \<lparr>peak_count = - 1, last_peak_index = 0, peak_indices = peak_indices0\<rparr>
      in (peak_count s + 1, peak_indices s))"

text \<open>An array given by its elements; offsets outside it read 0.\<close>

definition array :: "'a::zero list \<Rightarrow> int \<Rightarrow> 'a" where
  "array xs i = (if 0 \<le> i \<and> i < int (length xs) then xs ! nat i else 0)"

text \<open>Storing candidate \<open>i\<close> at position \<open>pc\<close>, and the test that ends the loop body; both
  only name parts of \<open>candidate\<close> for the proofs.\<close>

definition accept :: "search_state \<Rightarrow> int \<Rightarrow> int \<Rightarrow> search_state" where
  "accept s pc i =
     s\<lparr>peak_count := pc, peak_indices := (peak_indices s)(pc := i), last_peak_index := i\<rparr>"

definition finish :: "int \<Rightarrow> search_state \<Rightarrow> flow" where
  "finish max_peaks s = (if peak_count s + 1 \<ge> max_peaks then Break s else Continue s)"

text \<open>What a run of the loop from state \<open>s\<close> to state \<open>s'\<close> may change when the index buffer
  has room for \<open>max_peaks\<close> entries.\<close>

definition within_capacity :: "int \<Rightarrow> search_state \<Rightarrow> search_state \<Rightarrow> bool" where
  "within_capacity max_peaks s s' \<longleftrightarrow>
     peak_count s \<le> peak_count s' \<and> peak_count s' + 1 \<le> max_peaks \<and>
     (\<forall>j. j < 0 \<or> peak_count s' < j \<longrightarrow> peak_indices s' j = peak_indices s j)"

section \<open>Moving target indication (ifx\_mti\_f32.c)\<close>

text \<open>The instance structure. The history buffer is held with the pointer to it; a null
  pointer is \<open>None\<close>.\<close>

record ifx_mti_inst_f32 =
  inst_len :: "32 word"
  inst_alpha :: float32_t
  inst_historical_data :: "(nat \<Rightarrow> float32_t) option"

text \<open>\<^verbatim>\<open>ifx_mti_init_f32\<close>. The assertions read the fields of the instance as the caller
  passed it, before the assignments.\<close>

definition ifx_mti_init_f32 :: "ifx_mti_inst_f32 option \<Rightarrow> float32_t \<Rightarrow> 32 word
    \<Rightarrow> (nat \<Rightarrow> float32_t) option \<Rightarrow> error + ifx_mti_inst_f32" where
  "ifx_mti_init_f32 inst alpha len historical_data =
     (case inst of
        None \<Rightarrow> Inl AssertionFailed
      | Some old \<Rightarrow>
          (case historical_data of
             None \<Rightarrow> Inl AssertionFailed
           | Some h \<Rightarrow>
               if inst_historical_data old = None then Inl AssertionFailed
               else if \<not> inst_alpha old \<ge> 0 then Inl AssertionFailed
               else if \<not> inst_alpha old \<le> 1 then Inl AssertionFailed
               else Inr \<lparr>inst_len = len, inst_alpha = alpha,
                         inst_historical_data =
                           Some (fold (\<lambda>i hd. hd(i := 0)) [0..<unat len] h)\<rparr>))"





section \<open>The CMSIS-DSP interface\<close>

text \<open>\<^verbatim>\<open>arm_status\<close>, the status enumeration of CMSIS-DSP.\<close>

datatype arm_status =
    ARM_MATH_SUCCESS
  | ARM_MATH_ARGUMENT_ERROR
  | ARM_MATH_LENGTH_ERROR
  | ARM_MATH_SIZE_MISMATCH
  | ARM_MATH_NANINF
  | ARM_MATH_SINGULAR
  | ARM_MATH_TEST_FAILURE
  | ARM_MATH_DECOMPOSITION_FAILURE

text \<open>\<^verbatim>\<open>arm_matrix_instance_f32\<close>: the dimensions and the data the structure points to.\<close>

record arm_matrix_instance_f32 =
  numRows :: "16 word"
  numCols :: "16 word"
  pData :: "nat \<Rightarrow> float32_t"

text \<open>The FFT instance structures. The sources read one field of each, the transform
  length; \<open>rfft_tables\<close> and \<open>cfft_tables\<close> stand for the remaining fields, which only
  CMSIS-DSP reads and writes.\<close>

record arm_rfft_fast_instance_f32 =
  fftLenRFFT :: "16 word"
  rfft_tables :: nat

record arm_cfft_instance_f32 =
  fftLen :: "16 word"
  cfft_tables :: nat

text \<open>The elements \<open>off, ..., off + n - 1\<close> of a buffer, and a buffer with the elements
  \<open>ys\<close> written from offset \<open>off\<close> on: what a library function reads from and writes
  through a pointer.\<close>

definition load :: "(nat \<Rightarrow> 'a) \<Rightarrow> nat \<Rightarrow> nat \<Rightarrow> 'a list" where
  "load buf off n = map (\<lambda>i. buf (off + i)) [0..<n]"

definition store :: "(nat \<Rightarrow> 'a) \<Rightarrow> nat \<Rightarrow> 'a list \<Rightarrow> (nat \<Rightarrow> 'a)" where
  "store buf off ys = (\<lambda>a. if off \<le> a \<and> a < off + length ys then ys ! (a - off) else buf a)"

text \<open>Modelled from the spec: \<^verbatim>\<open>arm_mean_f32\<close>, \<^verbatim>\<open>arm_offset_f32\<close>, \<^verbatim>\<open>arm_mult_f32\<close> and
  \<^verbatim>\<open>arm_cmplx_mult_real_f32\<close> of CMSIS-DSP, which the repository calls but does not contain:
  the arithmetic mean of \<open>blockSize\<close> elements, the addition of an offset to each of them,
  and the element-wise product with a real vector (of real, and of interleaved complex
  elements). The sources call the last three in place, so the source and the destination are
  one buffer here.\<close>

definition arm_mean_f32 :: "(nat \<Rightarrow> float32_t) \<Rightarrow> nat \<Rightarrow> 32 word \<Rightarrow> float32_t" where
  "arm_mean_f32 pSrc off blockSize =
     sum_list (load pSrc off (unat blockSize)) / real (unat blockSize)"

definition arm_offset_f32 :: "(nat \<Rightarrow> float32_t) \<Rightarrow> nat \<Rightarrow> float32_t \<Rightarrow> 32 word
    \<Rightarrow> (nat \<Rightarrow> float32_t)" where
  "arm_offset_f32 pSrc off offset blockSize =
     store pSrc off (map (\<lambda>v. v + offset) (load pSrc off (unat blockSize)))"

definition arm_mult_f32 :: "(nat \<Rightarrow> float32_t) \<Rightarrow> nat \<Rightarrow> (nat \<Rightarrow> float32_t) \<Rightarrow> 32 word
    \<Rightarrow> (nat \<Rightarrow> float32_t)" where
  "arm_mult_f32 pSrcA off pSrcB blockSize =
     store pSrcA off (map (\<lambda>i. pSrcA (off + i) * pSrcB i) [0..<unat blockSize])"

definition arm_cmplx_mult_real_f32 :: "(nat \<Rightarrow> float32_t) \<Rightarrow> nat \<Rightarrow> (nat \<Rightarrow> float32_t)
    \<Rightarrow> 32 word \<Rightarrow> (nat \<Rightarrow> float32_t)" where
  "arm_cmplx_mult_real_f32 pSrcCmplx off pSrcReal numSamples =
     store pSrcCmplx off
       (map (\<lambda>i. pSrcCmplx (off + i) * pSrcReal (i div 2)) [0..<2 * unat numSamples])"

section \<open>Mean removal (ifx\_mean\_removal\_f32.c, ifx\_cmplx\_mean\_removal\_f32.c)\<close>

text \<open>The pointer \<open>v\<close> is a buffer and an offset into it, in \<^verbatim>\<open>float32_t\<close> elements; a complex
  element takes two of them, the real part first. The callers in the repository pass a
  pointer into a buffer they have asserted to be non-null, so the assertion on \<open>v\<close> does not
  appear.\<close>

definition ifx_mean_removal_f32 :: "(nat \<Rightarrow> float32_t) \<Rightarrow> nat \<Rightarrow> 32 word \<Rightarrow> (nat \<Rightarrow> float32_t)" where
  "ifx_mean_removal_f32 v off len =
     (let mean = arm_mean_f32 v off len in arm_offset_f32 v off (- mean) len)"

definition ifx_cmplx_mean_removal_f32 :: "(nat \<Rightarrow> float32_t) \<Rightarrow> nat \<Rightarrow> 32 word
    \<Rightarrow> (nat \<Rightarrow> float32_t)" where
  "ifx_cmplx_mean_removal_f32 v off len =
     (let sum = fold (\<lambda>i (re, im). (re + v (off + 2 * i), im + v (off + 2 * i + 1)))
                  [0..<unat len] (0, 0);
          sum = (fst sum / real (unat len), snd sum / real (unat len))
      in fold (\<lambda>i buf. buf(off + 2 * i := buf (off + 2 * i) - fst sum,
                             off + 2 * i + 1 := buf (off + 2 * i + 1) - snd sum))
           [0..<unat len] v)"

section \<open>Range and Doppler transforms (ifx\_range\_fft\_f32.c, ifx\_range\_cfft\_f32.c,
  ifx\_doppler\_cfft\_f32.c)\<close>

definition IFX_SENSOR_DSP_STATUS_OK :: int where
  "IFX_SENSOR_DSP_STATUS_OK = 0"

definition IFX_SENSOR_DSP_ARGUMENT_ERROR :: int where
  "IFX_SENSOR_DSP_ARGUMENT_ERROR = 1"

text \<open>
  Each of the three functions keeps its FFT instance in a \<^verbatim>\<open>static\<close> variable, zero at
  program start. The model takes the instance as it stands before the call and returns it as
  it stands after the call, with the status and the buffers.

  The parameters \<open>arm_rfft_fast_init_f32\<close>, \<open>arm_cfft_init_f32\<close> (the instance and the
  length to the status and the instance they leave), \<open>arm_rfft_fast_f32\<close>, \<open>arm_cfft_f32\<close>
  (the instance and the elements at the input pointer to the elements written at the output
  pointer) and \<open>arm_mat_cmplx_trans_f32\<close> are the CMSIS-DSP functions of these names.
\<close>

definition rfft_zero :: arm_rfft_fast_instance_f32 where
  "rfft_zero = \<lparr>fftLenRFFT = 0, rfft_tables = 0\<rparr>"

definition cfft_zero :: arm_cfft_instance_f32 where
  "cfft_zero = \<lparr>fftLen = 0, cfft_tables = 0\<rparr>"

text \<open>The loop body of \<^verbatim>\<open>ifx_range_fft_f32\<close> for one chirp. The loop state holds the two
  buffers and the offsets of the pointers \<^verbatim>\<open>frame\<close> and \<^verbatim>\<open>range\<close> into them, counted in
  \<^verbatim>\<open>float32_t\<close> elements.\<close>

definition range_fft_chirp :: "(arm_rfft_fast_instance_f32 \<Rightarrow> float32_t list \<Rightarrow> 8 word \<Rightarrow> float32_t list)
    \<Rightarrow> arm_rfft_fast_instance_f32 \<Rightarrow> bool \<Rightarrow> (nat \<Rightarrow> float32_t) option \<Rightarrow> 16 word
    \<Rightarrow> (nat \<Rightarrow> float32_t) \<times> nat \<times> (nat \<Rightarrow> float32_t) \<times> nat
    \<Rightarrow> (nat \<Rightarrow> float32_t) \<times> nat \<times> (nat \<Rightarrow> float32_t) \<times> nat" where
  "range_fft_chirp arm_rfft_fast_f32 rfft mean_removal win num_samples_per_chirp st =
     (case st of (frame, frame_off, range_buf, range_off) \<Rightarrow>
        let frame = (if mean_removal
                     then ifx_mean_removal_f32 frame frame_off (ucast num_samples_per_chirp)
                     else frame);
            frame = (case win of
                       None \<Rightarrow> frame
                     | Some w \<Rightarrow> arm_mult_f32 frame frame_off w (ucast num_samples_per_chirp));
            range_buf = store range_buf range_off
                      (arm_rfft_fast_f32 rfft
                         (load frame frame_off (unat num_samples_per_chirp)) 0);
            range_buf = range_buf(range_off + 1 := 0)
        in (frame, frame_off + unat num_samples_per_chirp,
            range_buf, range_off + 2 * (unat num_samples_per_chirp div 2)))"

definition ifx_range_fft_f32 ::
  "(arm_rfft_fast_instance_f32 \<Rightarrow> 16 word \<Rightarrow> arm_status \<times> arm_rfft_fast_instance_f32)
    \<Rightarrow> (arm_rfft_fast_instance_f32 \<Rightarrow> float32_t list \<Rightarrow> 8 word \<Rightarrow> float32_t list)
    \<Rightarrow> arm_rfft_fast_instance_f32
    \<Rightarrow> (nat \<Rightarrow> float32_t) option \<Rightarrow> (nat \<Rightarrow> float32_t) option \<Rightarrow> bool
    \<Rightarrow> (nat \<Rightarrow> float32_t) option \<Rightarrow> 16 word \<Rightarrow> 16 word
    \<Rightarrow> error + int \<times> arm_rfft_fast_instance_f32 \<times> (nat \<Rightarrow> float32_t) \<times> (nat \<Rightarrow> float32_t)" where
  "ifx_range_fft_f32 arm_rfft_fast_init_f32 arm_rfft_fast_f32 rfft frame range_buf mean_removal win
       num_samples_per_chirp num_chirps_per_frame =
     (case frame of
        None \<Rightarrow> Inl AssertionFailed
      | Some frame0 \<Rightarrow>
          (case range_buf of
             None \<Rightarrow> Inl AssertionFailed
           | Some range0 \<Rightarrow>
               let (status, rfft) =
                     (if fftLenRFFT rfft \<noteq> num_samples_per_chirp
                      then arm_rfft_fast_init_f32 rfft num_samples_per_chirp
                      else (ARM_MATH_SUCCESS, rfft))
               in if status \<noteq> ARM_MATH_SUCCESS
                  then Inr (IFX_SENSOR_DSP_ARGUMENT_ERROR, rfft, frame0, range0)
                  else
                    (case fold (\<lambda>chirp_idx. range_fft_chirp arm_rfft_fast_f32 rfft mean_removal
                                   win num_samples_per_chirp)
                            [0..<unat num_chirps_per_frame] (frame0, 0, range0, 0) of
                       (frame', frame_off, range', range_off) \<Rightarrow>
                         Inr (IFX_SENSOR_DSP_STATUS_OK, rfft, frame', range'))))"

text \<open>The loop body that \<^verbatim>\<open>ifx_range_cfft_f32\<close> and \<^verbatim>\<open>ifx_doppler_cfft_f32\<close> have in common,
  for one row of \<open>n\<close> complex elements at the pointer.\<close>

definition cfft_row :: "(arm_cfft_instance_f32 \<Rightarrow> float32_t list \<Rightarrow> 8 word \<Rightarrow> 8 word \<Rightarrow> float32_t list)
    \<Rightarrow> arm_cfft_instance_f32 \<Rightarrow> bool \<Rightarrow> (nat \<Rightarrow> float32_t) option \<Rightarrow> 16 word
    \<Rightarrow> (nat \<Rightarrow> float32_t) \<times> nat \<Rightarrow> (nat \<Rightarrow> float32_t) \<times> nat" where
  "cfft_row arm_cfft_f32 cfft mean_removal win n st =
     (case st of (buf, off) \<Rightarrow>
        let buf = (if mean_removal then ifx_cmplx_mean_removal_f32 buf off (ucast n) else buf);
            buf = (case win of
                     None \<Rightarrow> buf
                   | Some w \<Rightarrow> arm_cmplx_mult_real_f32 buf off w (ucast n));
            buf = store buf off (arm_cfft_f32 cfft (load buf off (2 * unat n)) 0 1)
        in (buf, off + 2 * unat n))"

definition ifx_range_cfft_f32 ::
  "(arm_cfft_instance_f32 \<Rightarrow> 16 word \<Rightarrow> arm_status \<times> arm_cfft_instance_f32)
    \<Rightarrow> (arm_cfft_instance_f32 \<Rightarrow> float32_t list \<Rightarrow> 8 word \<Rightarrow> 8 word \<Rightarrow> float32_t list)
    \<Rightarrow> arm_cfft_instance_f32
    \<Rightarrow> (nat \<Rightarrow> float32_t) option \<Rightarrow> bool \<Rightarrow> (nat \<Rightarrow> float32_t) option \<Rightarrow> 16 word \<Rightarrow> 16 word
    \<Rightarrow> error + int \<times> arm_cfft_instance_f32 \<times> (nat \<Rightarrow> float32_t)" where
  "ifx_range_cfft_f32 arm_cfft_init_f32 arm_cfft_f32 cfft frame mean_removal win
       num_samples_per_chirp num_chirps_per_frame =
     (case frame of
        None \<Rightarrow> Inl AssertionFailed
      | Some frame0 \<Rightarrow>
          let (status, cfft) =
                (if fftLen cfft \<noteq> num_samples_per_chirp
                 then arm_cfft_init_f32 cfft num_samples_per_chirp
                 else (ARM_MATH_SUCCESS, cfft))
          in if status \<noteq> ARM_MATH_SUCCESS
             then Inr (IFX_SENSOR_DSP_ARGUMENT_ERROR, cfft, frame0)
             else
               (case fold (\<lambda>chirp_idx. cfft_row arm_cfft_f32 cfft mean_removal win
                              num_samples_per_chirp)
                       [0..<unat num_chirps_per_frame] (frame0, 0) of
                  (frame', frame_off) \<Rightarrow> Inr (IFX_SENSOR_DSP_STATUS_OK, cfft, frame')))"

definition ifx_doppler_cfft_f32 ::
  "(arm_cfft_instance_f32 \<Rightarrow> 16 word \<Rightarrow> arm_status \<times> arm_cfft_instance_f32)
    \<Rightarrow> (arm_cfft_instance_f32 \<Rightarrow> float32_t list \<Rightarrow> 8 word \<Rightarrow> 8 word \<Rightarrow> float32_t list)
    \<Rightarrow> (arm_matrix_instance_f32 \<Rightarrow> arm_matrix_instance_f32
          \<Rightarrow> arm_status \<times> arm_matrix_instance_f32)
    \<Rightarrow> arm_cfft_instance_f32
    \<Rightarrow> (nat \<Rightarrow> float32_t) option \<Rightarrow> (nat \<Rightarrow> float32_t) option \<Rightarrow> bool
    \<Rightarrow> (nat \<Rightarrow> float32_t) option \<Rightarrow> 16 word \<Rightarrow> 16 word
    \<Rightarrow> error + int \<times> arm_cfft_instance_f32 \<times> (nat \<Rightarrow> float32_t)" where
  "ifx_doppler_cfft_f32 arm_cfft_init_f32 arm_cfft_f32 arm_mat_cmplx_trans_f32 cfft range_buf doppler
       mean_removal win num_range_bins num_chirps_per_frame =
     (case range_buf of
        None \<Rightarrow> Inl AssertionFailed
      | Some range0 \<Rightarrow>
          (case doppler of
             None \<Rightarrow> Inl AssertionFailed
           | Some doppler0 \<Rightarrow>
               let (status, cfft) =
                     (if fftLen cfft \<noteq> num_chirps_per_frame
                      then arm_cfft_init_f32 cfft num_chirps_per_frame
                      else (ARM_MATH_SUCCESS, cfft))
               in if status \<noteq> ARM_MATH_SUCCESS
                  then Inr (IFX_SENSOR_DSP_ARGUMENT_ERROR, cfft, doppler0)
                  else
                    let range_matrix = \<lparr>numRows = num_chirps_per_frame,
                                         numCols = num_range_bins, pData = range0\<rparr>;
                        doppler_matrix = \<lparr>numRows = num_range_bins,
                                           numCols = num_chirps_per_frame, pData = doppler0\<rparr>;
                        doppler1 = pData (snd (arm_mat_cmplx_trans_f32 range_matrix doppler_matrix))
                    in (case fold (\<lambda>range_idx. cfft_row arm_cfft_f32 cfft mean_removal win
                                      num_chirps_per_frame)
                               [0..<unat num_range_bins] (doppler1, 0) of
                          (doppler', doppler_off) \<Rightarrow>
                            Inr (IFX_SENSOR_DSP_STATUS_OK, cfft, doppler'))))"

section \<open>Digital beamforming (ifx\_angle\_dbf\_f32.c)\<close>

text \<open>The parameter \<open>arm_mat_cmplx_mult_f32\<close> is the CMSIS-DSP function of that name: the
  two factors and the destination to the status and the destination it leaves.\<close>

definition ifx_angle_dbf_f32 ::
  "(arm_matrix_instance_f32 \<Rightarrow> arm_matrix_instance_f32 \<Rightarrow> arm_matrix_instance_f32
      \<Rightarrow> arm_status \<times> arm_matrix_instance_f32)
    \<Rightarrow> arm_matrix_instance_f32 \<Rightarrow> arm_matrix_instance_f32 \<Rightarrow> arm_matrix_instance_f32
    \<Rightarrow> error + arm_status \<times> arm_matrix_instance_f32" where
  "ifx_angle_dbf_f32 arm_mat_cmplx_mult_f32 pInput pSteering pOutput =
     (if \<not> numCols pSteering = numRows pInput then Inl AssertionFailed
      else if \<not> numCols pInput = numCols pOutput then Inl AssertionFailed
      else if \<not> numRows pSteering = numRows pOutput then Inl AssertionFailed
      else Inr (arm_mat_cmplx_mult_f32 pSteering pInput pOutput))"

section \<open>Sequences of calls on one cached FFT instance\<close>

text \<open>The status a call returns and the instance it leaves in the \<^verbatim>\<open>static\<close> variable
  (nothing after a failed assertion).\<close>

definition status_of :: "error + int \<times> 'p \<times> 'r \<Rightarrow> int option" where
  "status_of r = (case r of Inl e \<Rightarrow> None | Inr (status, p, bufs) \<Rightarrow> Some status)"

definition plan_after :: "error + int \<times> 'p \<times> 'r \<Rightarrow> 'p option" where
  "plan_after r = (case r of Inl e \<Rightarrow> None | Inr (status, p, bufs) \<Rightarrow> Some p)"

text \<open>Successive calls with the transform lengths \<open>ns\<close>, the first on the instance \<open>p\<close>, each
  later one on the instance its predecessor left: the instance every call finds.\<close>

fun plans_before :: "('p \<Rightarrow> 16 word \<Rightarrow> error + int \<times> 'p \<times> 'r) \<Rightarrow> 'p \<Rightarrow> 16 word list \<Rightarrow> 'p list" where
  "plans_before call p [] = []"
| "plans_before call p (n # ns) =
     p # (case plan_after (call p n) of None \<Rightarrow> [] | Some p' \<Rightarrow> plans_before call p' ns)"

text \<open>The lengths \<open>a, b, a, b, ...\<close> of \<open>m\<close> calls.\<close>

fun alternate :: "'a \<Rightarrow> 'a \<Rightarrow> nat \<Rightarrow> 'a list" where
  "alternate a b 0 = []"
| "alternate a b (Suc m) = a # alternate b a m"

text \<open>
  An entry point \<open>call\<close> (taking the initialisation function of the library, the cached
  instance and the transform length) treats the instance, whose length field is \<open>len\<close>, as a
  cache with one slot:
  \<^item> a call with the cached length does not depend on the initialisation function, leaves
    the instance as it is and succeeds;
  \<^item> a call with another length leaves the instance the initialisation function built for
    the new length, and fails exactly when that function fails;
  \<^item> when the initialisation function accepts the lengths \<open>a \<noteq> b\<close> and records them, every
    one of \<open>m\<close> calls with the lengths \<open>a, b, a, ...\<close> finds an instance of another length
    than its own (the first one when the instance it starts from has).
\<close>

definition single_slot_cache :: "('p \<Rightarrow> 16 word)
    \<Rightarrow> (('p \<Rightarrow> 16 word \<Rightarrow> arm_status \<times> 'p) \<Rightarrow> 'p \<Rightarrow> 16 word \<Rightarrow> error + int \<times> 'p \<times> 'r) \<Rightarrow> bool" where
  "single_slot_cache len call \<longleftrightarrow>
     (\<forall>init init' p n. len p = n \<longrightarrow>
         call init p n = call init' p n \<and>
         plan_after (call init p n) = Some p \<and>
         status_of (call init p n) = Some IFX_SENSOR_DSP_STATUS_OK) \<and>
     (\<forall>init p n. len p \<noteq> n \<longrightarrow>
         plan_after (call init p n) = Some (snd (init p n)) \<and>
         status_of (call init p n) =
           Some (if fst (init p n) = ARM_MATH_SUCCESS then IFX_SENSOR_DSP_STATUS_OK
                 else IFX_SENSOR_DSP_ARGUMENT_ERROR)) \<and>
     (\<forall>init p a b m.
         a \<noteq> b \<and> len p \<noteq> a \<and>
         (\<forall>q. \<forall>n \<in> {a, b}. fst (init q n) = ARM_MATH_SUCCESS \<and> len (snd (init q n)) = n) \<longrightarrow>
         length (plans_before (call init) p (alternate a b m)) = m \<and>
         (\<forall>k < m. len (plans_before (call init) p (alternate a b m) ! k) \<noteq> alternate a b m ! k))"

text \<open>The chirp at offset \<open>off\<close> of the frame after the optional mean removal and the
  optional window, as the loop body of \<^verbatim>\<open>ifx_range_fft_f32\<close> leaves it; a name for the
  proofs.\<close>

definition prepared :: "bool \<Rightarrow> (nat \<Rightarrow> float32_t) option \<Rightarrow> 16 word \<Rightarrow> (nat \<Rightarrow> float32_t) \<Rightarrow> nat \<Rightarrow> (nat \<Rightarrow> float32_t)" where
  "prepared mean_removal win n frame off =
     (let frame = (if mean_removal then ifx_mean_removal_f32 frame off (ucast n) else frame)
      in case win of None \<Rightarrow> frame | Some w \<Rightarrow> arm_mult_f32 frame off w (ucast n))"

section \<open>Rotation and spectrum shift (ifx\_rotate\_f32.c, ifx\_shift\_cfft\_f32.c)\<close>

text \<open>One pass of the \<^verbatim>\<open>while\<close> loop of \<^verbatim>\<open>ifx_rotate_f32\<close> on the buffer \<open>v\<close> at the pointer
  offset \<open>off\<close>: the first element is saved, the elements \<open>1, ..., len - 1\<close> move down by
  one, and the saved element goes to the index \<open>len - 1\<close>. The subtraction is that of
  \<^verbatim>\<open>uint32_t\<close>.\<close>

definition rotate_pass :: "(nat \<Rightarrow> float32_t) \<Rightarrow> nat \<Rightarrow> 32 word \<Rightarrow> (nat \<Rightarrow> float32_t)" where
  "rotate_pass v off len =
     (let temp = v off;
          v = fold (\<lambda>j v. v(off + j := v (off + (j + 1)))) [0..<unat (len - 1)] v
      in v(off + unat (len - 1) := temp))"

text \<open>\<^verbatim>\<open>ifx_rotate_f32\<close>: the loop \<^verbatim>\<open>while (k > 0U) { ...; --k; }\<close> makes \<open>unat k\<close> passes. The
  assertion on \<open>v\<close> does not appear: the one caller in the repository has asserted it.\<close>

definition ifx_rotate_f32 :: "(nat \<Rightarrow> float32_t) \<Rightarrow> nat \<Rightarrow> 32 word \<Rightarrow> 32 word \<Rightarrow> (nat \<Rightarrow> float32_t)" where
  "ifx_rotate_f32 v off len k = ((\<lambda>v. rotate_pass v off len) ^^ unat k) v"

text \<open>\<^verbatim>\<open>ifx_shift_cfft_f32\<close> on a buffer of interleaved complex elements. The loop state is
  the buffer and the offset of the pointer \<open>v\<close>, which advances by \<open>len\<close> complex elements
  per row. \<open>len * 2\<close> and \<open>len + 1\<close> are \<^verbatim>\<open>uint32_t\<close> operations.\<close>

definition ifx_shift_cfft_f32 :: "(nat \<Rightarrow> float32_t) option \<Rightarrow> 32 word \<Rightarrow> 32 word
    \<Rightarrow> error + (nat \<Rightarrow> float32_t)" where
  "ifx_shift_cfft_f32 v len dim' =
     (case v of
        None \<Rightarrow> Inl AssertionFailed
      | Some v0 \<Rightarrow>
          Inr (fst (fold (\<lambda>i (v, off).
                       (ifx_rotate_f32 v off (len * 2) (if len mod 2 = 1 then len + 1 else len),
                        off + 2 * unat len))
                 [0..<unat dim'] (v0, 0))))"

text \<open>The \<open>n\<close> complex elements of a buffer from the \<^verbatim>\<open>float32_t\<close> offset \<open>off\<close> on.\<close>

definition cload :: "(nat \<Rightarrow> float32_t) \<Rightarrow> nat \<Rightarrow> nat \<Rightarrow> complex list" where
  "cload buf off n = map (\<lambda>i. Complex (buf (off + 2 * i)) (buf (off + 2 * i + 1))) [0..<n]"

text \<open>The complex elements held in a list of \<^verbatim>\<open>float32_t\<close> elements, and the number of complex
  positions by which \<^verbatim>\<open>ifx_shift_cfft_f32\<close> is to rotate a row of \<open>len\<close> of them; names for the
  proofs.\<close>

definition pairs :: "real list \<Rightarrow> complex list" where
  "pairs xs = map (\<lambda>i. Complex (xs ! (2 * i)) (xs ! (2 * i + 1))) [0..<length xs div 2]"

definition shift_count :: "32 word \<Rightarrow> nat" where
  "shift_count len = (if even (unat len) then unat len div 2 else (unat len + 1) div 2)"

section \<open>Arcsine and monopulse angle (ifx\_arcsin\_f32.c, ifx\_angle\_monopulse\_f32.c)\<close>






text \<open>The variables the loop of \<^verbatim>\<open>ifx_angle_monopulse_f32\<close> updates.\<close>

record monopulse_state =
  rx1_ang :: float32_t
  rx2_ang :: float32_t
  status :: "32 word"
  angle_buf :: "nat \<Rightarrow> float32_t"





section \<open>Window generation (ifx\_window\_hamming\_f32.c, ifx\_window\_blackmanharris\_f32.c)\<close>










section \<open>Properties of the peak search\<close>

declare scan.simps [simp del]

lemma candidate_cases:
  "candidate x len max_peaks opts i s = Continue s \<or>
   candidate x len max_peaks opts i s = finish max_peaks (accept s (peak_count s + 1) i) \<or>
   (peak_count s > 0 \<and>
    candidate x len max_peaks opts i s = finish max_peaks (accept s (peak_count s) i))"
proof (cases "peak_count s > 0 \<and> last_peak_index s > i - distance opts")
  case True
  then show ?thesis
    by (simp add: candidate_def Let_def accept_def finish_def)
next
  case False
  then show ?thesis
    by (simp add: candidate_def Let_def accept_def finish_def)
qed

lemma candidate_step:
  assumes "- 1 \<le> peak_count s" "peak_count s + 1 < max_peaks"
  shows "(case candidate x len max_peaks opts i s of
            Break s' \<Rightarrow> within_capacity max_peaks s s' \<and> - 1 \<le> peak_count s'
          | Continue s' \<Rightarrow> within_capacity max_peaks s s' \<and> - 1 \<le> peak_count s' \<and>
              peak_count s' + 1 < max_peaks)"
proof -
  have a: "within_capacity max_peaks s (accept s pc i) \<and> - 1 \<le> peak_count (accept s pc i)"
    if "pc = peak_count s + 1 \<or> 0 < peak_count s \<and> pc = peak_count s" for pc
    using that assms by (auto simp: within_capacity_def accept_def)
  from candidate_cases[of x len max_peaks opts i s] show ?thesis
  proof (elim disjE conjE)
    assume "candidate x len max_peaks opts i s = Continue s"
    with assms show ?thesis by (simp add: within_capacity_def)
  next
    assume c: "candidate x len max_peaks opts i s = finish max_peaks (accept s (peak_count s + 1) i)"
    from a[of "peak_count s + 1"] show ?thesis
      unfolding c finish_def by (simp add: accept_def)
  next
    assume "0 < peak_count s"
      and c: "candidate x len max_peaks opts i s = finish max_peaks (accept s (peak_count s) i)"
    with a[of "peak_count s"] show ?thesis
      unfolding c finish_def by (simp add: accept_def)
  qed
qed

lemma within_capacity_trans:
  "within_capacity m s s' \<Longrightarrow> within_capacity m s' s'' \<Longrightarrow> within_capacity m s s''"
  unfolding within_capacity_def by auto

lemma scan_within_capacity:
  "- 1 \<le> peak_count s \<Longrightarrow> peak_count s + 1 < max_peaks \<Longrightarrow>
   within_capacity max_peaks s (scan x len max_peaks opts i s) \<and>
   - 1 \<le> peak_count (scan x len max_peaks opts i s)"
proof (induction x len max_peaks opts i s rule: scan.induct)
  case (1 x len max_peaks opts i s)
  note step = candidate_step[OF 1(2,3), of x len opts i]
  note unfold = scan.simps[of x len max_peaks opts i s]
  show ?case
  proof (cases "i < len - 1")
    case False
    with 1(2,3) show ?thesis by (simp add: within_capacity_def unfold)
  next
    case True
    show ?thesis
    proof (cases "candidate x len max_peaks opts i s")
      case (Break s')
      with step True show ?thesis by (simp add: unfold)
    next
      case (Continue s')
      with step have s': "within_capacity max_peaks s s'" "- 1 \<le> peak_count s'"
          "peak_count s' + 1 < max_peaks"
        by simp_all
      from 1(1)[OF True Continue s'(2,3)] s'(1) True Continue show ?thesis
        by (auto simp: unfold intro: within_capacity_trans)
    qed
  qed
qed

text \<open>
  C1 (the distance rule and its example). The code applies the distance rule only when
  \<open>peak_count > 0\<close>, and \<open>peak_count\<close> starts at \<open>-1\<close>: with one peak stored it is 0 and
  the rule is skipped. On \<open>x = [0,1,0,5,0,1,0]\<close> with \<open>distance = 4\<close> and the other
  options at their defaults, index 1 is stored, index 3 (two samples further, and larger)
  is appended instead of replacing it, and index 5 is then rejected against index 3: the
  function returns 2 and the buffer starts with 1, 3, not the single index 3.
\<close>

theorem peak_search_distance_skipped_for_second_peak:
  "ifx_peak_search_f32 (array [0, 1, 0, 5, 0, 1, 0]) 7 pk 5
     (Some \<lparr>height = NEG_INFINITY, threshold = FLT_EPSILON, distance = 4, width = 1\<rparr>)
   = (2, pk(0 := 1, 1 := 3))"
  by (simp add: ifx_peak_search_f32_def candidate_def array_def FLT_EPSILON_def Let_def
      scan.simps)

text \<open>
  C2 (the count is between 0 and \<open>max_peaks\<close>, also for \<open>max_peaks = 0\<close>). The test against
  \<open>max_peaks\<close> comes after the store: with \<open>max_peaks = 0\<close> and \<open>x = [0,1,0]\<close> the function
  stores index 1 at position 0 of the index buffer and returns 1.
\<close>

theorem peak_search_max_peaks_zero:
  "ifx_peak_search_f32 (array [0, 1, 0]) 3 pk 0 None = (1, pk(0 := 1))"
  by (simp add: ifx_peak_search_f32_def default_opts_def candidate_def array_def
      FLT_EPSILON_def Let_def scan.simps)

text \<open>
  For \<open>max_peaks \<ge> 1\<close> the count is between 0 and \<open>max_peaks\<close>, and the index buffer is
  unchanged outside the positions \<open>0, ..., count - 1\<close>.
\<close>

theorem peak_search_count_bounds:
  assumes "1 \<le> max_peaks"
  shows "0 \<le> fst (ifx_peak_search_f32 x len pk max_peaks opts) \<and>
         fst (ifx_peak_search_f32 x len pk max_peaks opts) \<le> max_peaks \<and>
         (\<forall>j. j < 0 \<or> fst (ifx_peak_search_f32 x len pk max_peaks opts) \<le> j \<longrightarrow>
            snd (ifx_peak_search_f32 x len pk max_peaks opts) j = pk j)"
proof -
  let ?s0 = "\<lparr>peak_count = - 1, last_peak_index = 0, peak_indices = pk\<rparr>"
  have "- 1 \<le> peak_count ?s0" "peak_count ?s0 + 1 < max_peaks" using assms by simp_all
  from scan_within_capacity[OF this, of x len
      "case opts of None \<Rightarrow> default_opts | Some opt \<Rightarrow> opt" 1]
  show ?thesis
    unfolding ifx_peak_search_f32_def Let_def within_capacity_def by auto
qed

theorem peak_search_count_bounds_witness:
  "fst (ifx_peak_search_f32 (array [0, 1, 0, 5, 0, 1, 0]) 7 (\<lambda>j. 0) 2 None) \<le> 2 \<and>
   snd (ifx_peak_search_f32 (array [0, 1, 0, 5, 0, 1, 0]) 7 (\<lambda>j. 0) 2 None) 2 = 0"
  using peak_search_count_bounds[of 2 "array [0, 1, 0, 5, 0, 1, 0]" 7 "\<lambda>j. 0" None]
  by (simp add: ifx_peak_search_f32_def default_opts_def candidate_def array_def
      FLT_EPSILON_def Let_def scan.simps)

section \<open>Properties of the moving target indication\<close>

text \<open>A loop that writes element \<open>j\<close> from element \<open>j\<close> alone, for \<open>j = 0, ..., n - 1\<close>.\<close>

lemma fold_pointwise:
  "fold (\<lambda>j (h::nat \<Rightarrow> 'a). h(j := g j (h j))) [0..<n] h =
     (\<lambda>i. if i < n then g i (h i) else h i)"
  by (induction n) (auto simp: fun_eq_iff)

lemma zero_fill:
  "fold (\<lambda>i (hd::nat \<Rightarrow> real). hd(i := 0)) [0..<n] h = (\<lambda>i. if i < n then 0 else h i)"
  using fold_pointwise[of "\<lambda>j v. 0" n h] by simp





text \<open>
  C3 (\<^verbatim>\<open>ifx_mti_init_f32\<close> requires \<open>0 \<le> alpha \<le> 1\<close> of its argument). The two assertions
  read \<^verbatim>\<open>inst->alpha\<close>, the field as the caller passed it, not the argument. An instance
  whose field holds 1/2 is initialised with the argument \<open>alpha = 2\<close> without complaint, and
  an instance whose field holds 5 is refused although the argument is \<open>1/2\<close>.
\<close>

theorem mti_init_checks_stale_alpha:
  "ifx_mti_init_f32 (Some \<lparr>inst_len = 0, inst_alpha = 1 / 2, inst_historical_data = Some h0\<rparr>)
      2 2 (Some h)
     = Inr \<lparr>inst_len = 2, inst_alpha = 2, inst_historical_data = Some (h(0 := 0, 1 := 0))\<rparr> \<and>
   ifx_mti_init_f32 (Some \<lparr>inst_len = 0, inst_alpha = 5, inst_historical_data = Some h0\<rparr>)
      (1 / 2) 2 (Some h)
     = Inl AssertionFailed"
  by (simp add: ifx_mti_init_f32_def zero_fill fun_eq_iff)

text \<open>
  What \<^verbatim>\<open>ifx_mti_init_f32\<close> leaves when it completes: the given length and \<open>alpha\<close>, and a
  history buffer whose first \<open>len\<close> elements are zero.
\<close>

theorem mti_init_postcondition:
  assumes "ifx_mti_init_f32 inst alpha len historical_data = Inr inst'"
  shows "inst_len inst' = len \<and> inst_alpha inst' = alpha \<and>
         (\<exists>h'. inst_historical_data inst' = Some h' \<and> (\<forall>i < unat len. h' i = 0))"
  using assms
  by (auto simp: ifx_mti_init_f32_def zero_fill split: option.splits if_splits)

theorem mti_init_postcondition_witness:
  "ifx_mti_init_f32 (Some \<lparr>inst_len = 0, inst_alpha = 0, inst_historical_data = Some (\<lambda>i. 7)\<rparr>)
      (1 / 4) 3 (Some (\<lambda>i. 7))
     = Inr \<lparr>inst_len = 3, inst_alpha = 1 / 4,
            inst_historical_data = Some (\<lambda>i. if i < 3 then 0 else 7)\<rparr> \<and>
   inst_alpha \<lparr>inst_len = 3, inst_alpha = 1 / 4,
            inst_historical_data = Some (\<lambda>i. if i < 3 then 0 else 7)\<rparr> = 1 / 4"
  using mti_init_postcondition[of
      "Some \<lparr>inst_len = 0, inst_alpha = 0, inst_historical_data = Some (\<lambda>i. 7)\<rparr>" "1 / 4" 3
      "Some (\<lambda>i. 7)"
      "\<lparr>inst_len = 3, inst_alpha = 1 / 4,
            inst_historical_data = Some (\<lambda>i. if i < 3 then 0 else 7)\<rparr>"]
  by (simp add: ifx_mti_init_f32_def zero_fill)



section \<open>Properties of the cached FFT instances\<close>

lemma alternating_rebuilds:
  assumes rebuild: "\<And>p n. len p \<noteq> n \<Longrightarrow> plan_after (call p n) = Some (snd (init p n))"
    and ok: "\<And>q. len (snd (init q a)) = a" "\<And>q. len (snd (init q b)) = b"
    and ne: "a \<noteq> b"
  shows "len p \<noteq> a \<Longrightarrow>
     length (plans_before call p (alternate a b m)) = m \<and>
     (\<forall>k < m. len (plans_before call p (alternate a b m) ! k) \<noteq> alternate a b m ! k)"
  using ok ne
proof (induction m arbitrary: p a b)
  case 0
  show ?case by simp
next
  case (Suc m)
  let ?p' = "snd (init p a)"
  have step: "plan_after (call p a) = Some ?p'" using rebuild Suc.prems(1) by simp
  have "len ?p' \<noteq> b" using Suc.prems by simp
  from Suc.IH[OF this Suc.prems(3) Suc.prems(2)] Suc.prems(4)
  have ih: "length (plans_before call ?p' (alternate b a m)) = m"
    "\<forall>k < m. len (plans_before call ?p' (alternate b a m) ! k) \<noteq> alternate b a m ! k"
    by auto
  show ?case
  proof (intro conjI allI impI)
    show "length (plans_before call p (alternate a b (Suc m))) = Suc m"
      using step ih(1) by simp
  next
    fix k assume "k < Suc m"
    then show "len (plans_before call p (alternate a b (Suc m)) ! k) \<noteq> alternate a b (Suc m) ! k"
      using step ih(2) Suc.prems(1) by (cases k) auto
  qed
qed

lemma single_slot_cacheI:
  fixes len :: "'p \<Rightarrow> 16 word"
    and call :: "('p \<Rightarrow> 16 word \<Rightarrow> arm_status \<times> 'p) \<Rightarrow> 'p \<Rightarrow> 16 word \<Rightarrow> error + int \<times> 'p \<times> 'r"
  assumes reuse: "\<And>init init' p n. len p = n \<Longrightarrow>
       call init p n = call init' p n \<and> plan_after (call init p n) = Some p \<and>
       status_of (call init p n) = Some IFX_SENSOR_DSP_STATUS_OK"
    and rebuild: "\<And>init p n. len p \<noteq> n \<Longrightarrow>
       plan_after (call init p n) = Some (snd (init p n)) \<and>
       status_of (call init p n) =
         Some (if fst (init p n) = ARM_MATH_SUCCESS then IFX_SENSOR_DSP_STATUS_OK
               else IFX_SENSOR_DSP_ARGUMENT_ERROR)"
  shows "single_slot_cache len call"
proof -
  have alt: "length (plans_before (call init) p (alternate a b m)) = m \<and>
       (\<forall>k < m. len (plans_before (call init) p (alternate a b m) ! k) \<noteq> alternate a b m ! k)"
    if h: "a \<noteq> b \<and> len p \<noteq> a \<and>
       (\<forall>q. \<forall>n \<in> {a, b}. fst (init q n) = ARM_MATH_SUCCESS \<and> len (snd (init q n)) = n)"
    for init :: "'p \<Rightarrow> 16 word \<Rightarrow> arm_status \<times> 'p" and p a b m
  proof -
    have r: "\<And>q n. len q \<noteq> n \<Longrightarrow> plan_after (call init q n) = Some (snd (init q n))"
      using rebuild by simp
    from h have ok: "\<And>q. len (snd (init q a)) = a" "\<And>q. len (snd (init q b)) = b"
      by simp_all
    from h have "len p \<noteq> a" "a \<noteq> b" by simp_all
    from alternating_rebuilds[of len "call init" init a b p m, OF r ok this(2,1)]
    show ?thesis .
  qed
  show ?thesis
    unfolding single_slot_cache_def using reuse rebuild alt by blast
qed

lemma range_fft_cache: "single_slot_cache fftLenRFFT
     (\<lambda>init p n. ifx_range_fft_f32 init run p (Some frame) (Some range_buf) mean_removal win n chirps)"
  by (rule single_slot_cacheI)
    (simp_all add: ifx_range_fft_f32_def plan_after_def status_of_def Let_def
       IFX_SENSOR_DSP_STATUS_OK_def IFX_SENSOR_DSP_ARGUMENT_ERROR_def split: prod.splits)

lemma range_cfft_cache: "single_slot_cache fftLen
     (\<lambda>init p n. ifx_range_cfft_f32 init run p (Some frame) mean_removal win n chirps)"
  by (rule single_slot_cacheI)
    (simp_all add: ifx_range_cfft_f32_def plan_after_def status_of_def Let_def
       IFX_SENSOR_DSP_STATUS_OK_def IFX_SENSOR_DSP_ARGUMENT_ERROR_def split: prod.splits)

lemma doppler_cfft_cache: "single_slot_cache fftLen
     (\<lambda>init p n. ifx_doppler_cfft_f32 init run transpose_f32 p (Some range_buf) (Some doppler) mean_removal win bins n)"
  by (rule single_slot_cacheI)
    (simp_all add: ifx_doppler_cfft_f32_def plan_after_def status_of_def Let_def
       IFX_SENSOR_DSP_STATUS_OK_def IFX_SENSOR_DSP_ARGUMENT_ERROR_def split: prod.splits)

text \<open>
  C4 (single-slot plan cache). Each of \<^verbatim>\<open>ifx_range_fft_f32\<close>, \<^verbatim>\<open>ifx_range_cfft_f32\<close> and
  \<^verbatim>\<open>ifx_doppler_cfft_f32\<close> holds one FFT instance. A call whose transform length equals the
  length of the instance uses it as it is, without the initialisation function; a call with
  another length replaces it by the instance the initialisation function builds; and calls
  that alternate between two lengths the library accepts replace it every time.
\<close>

theorem plan_cache_single_slot:
  "single_slot_cache fftLenRFFT
     (\<lambda>init p n. ifx_range_fft_f32 init rfft_run p (Some frame) (Some range_buf)
        mean_removal win n chirps) \<and>
   single_slot_cache fftLen
     (\<lambda>init p n. ifx_range_cfft_f32 init cfft_run p (Some cframe) mean_removal win n chirps) \<and>
   single_slot_cache fftLen
     (\<lambda>init p n. ifx_doppler_cfft_f32 init cfft_run transpose_f32 p (Some range_buf)
        (Some doppler) mean_removal win bins n)"
  by (intro conjI range_fft_cache range_cfft_cache doppler_cfft_cache)

theorem plan_cache_single_slot_witness:
  "map fftLenRFFT
     (plans_before
        (\<lambda>p n. ifx_range_fft_f32 (\<lambda>q m. (ARM_MATH_SUCCESS, q\<lparr>fftLenRFFT := m\<rparr>))
                  (\<lambda>q xs flag. xs) p (Some (\<lambda>i. 1)) (Some (\<lambda>i. 5)) False None n 1)
        rfft_zero (alternate 2 4 3)) = [0, 2, 4]"
  using plan_cache_single_slot[of "\<lambda>q xs flag. xs" "\<lambda>i. 1" "\<lambda>i. 5" False None 1]
  unfolding single_slot_cache_def
  by (simp add: ifx_range_fft_f32_def plan_after_def rfft_zero_def range_fft_chirp_def
      load_def store_def Let_def numeral_3_eq_3)

section \<open>Properties of the digital beamforming\<close>

text \<open>
  C7 (beamforming with inconsistent dimensions is rejected). \<^verbatim>\<open>ifx_angle_dbf_f32\<close> calls
  the matrix product \<open>steering \<times> input\<close> exactly when the columns of the steering matrix are
  the rows of the input, the columns of the input are the columns of the output and the
  rows of the steering matrix are the rows of the output; in every other case it stops at a
  failed assertion and the product is not computed.
\<close>

theorem angle_dbf_rejects_shape_mismatch:
  "ifx_angle_dbf_f32 arm_mat_cmplx_mult_f32 pInput pSteering pOutput =
     (if numCols pSteering = numRows pInput \<and> numCols pInput = numCols pOutput \<and>
         numRows pSteering = numRows pOutput
      then Inr (arm_mat_cmplx_mult_f32 pSteering pInput pOutput)
      else Inl AssertionFailed)"
  by (simp add: ifx_angle_dbf_f32_def)

section \<open>Properties of the real range transform\<close>

lemma store_outside: "a < off \<or> off + length ys \<le> a \<Longrightarrow> store buf off ys a = buf a"
  by (auto simp: store_def)

lemma store_inside: "i < length ys \<Longrightarrow> store buf off ys (off + i) = ys ! i"
  by (simp add: store_def)

lemma length_load [simp]: "length (load buf off n) = n"
  by (simp add: load_def)

lemma load_cong: "(\<And>i. i < n \<Longrightarrow> b (off + i) = b' (off + i)) \<Longrightarrow> load b off n = load b' off n"
  by (simp add: load_def)

lemma unat_ucast_16_32: "unat (ucast (n :: 16 word) :: 32 word) = unat n"
proof -
  have "unat n < 2 ^ 16" using unsigned_less[of n, where 'a = nat] by simp
  then have "unat n < 2 ^ 32" by simp
  then show ?thesis by (simp add: unsigned_ucast_eq take_bit_nat_eq_self)
qed

lemma prepared_outside:
  "a < off \<or> off + unat n \<le> a \<Longrightarrow> prepared mean_removal win n frame off a = frame a"
  by (auto simp: prepared_def ifx_mean_removal_f32_def arm_offset_f32_def arm_mult_f32_def
      Let_def store_outside unat_ucast_16_32 split: option.splits)

lemma range_fft_chirp_eq:
  "range_fft_chirp run rfft mean_removal win n (frame, frame_off, range_buf, range_off) =
     (prepared mean_removal win n frame frame_off, frame_off + unat n,
      (store range_buf range_off
         (run rfft (load (prepared mean_removal win n frame frame_off) frame_off (unat n)) 0))
        (range_off + 1 := 0),
      range_off + 2 * (unat n div 2))"
  by (simp add: range_fft_chirp_def prepared_def Let_def split: option.splits)


lemma row_after_store:
  assumes "2 * h \<le> length out"
  shows "load ((store r off out)(off + 1 := 0)) off (2 * h) = take (2 * h) (out[1 := 0::real])"
proof (rule nth_equalityI)
  show "length (load ((store r off out)(off + 1 := 0)) off (2 * h)) = length (take (2 * h) (out[1 := 0]))"
    using assms by simp
next
  fix i assume "i < length (load ((store r off out)(off + 1 := 0)) off (2 * h))"
  then have i: "i < 2 * h" by simp
  with assms have "i < length out" by simp
  with i show "load ((store r off out)(off + 1 := 0)) off (2 * h) ! i = take (2 * h) (out[1 := 0]) ! i"
    by (simp add: load_def store_def)
qed

lemma range_fft_rows:
  fixes n :: "16 word"
  defines "N \<equiv> unat n" and "h \<equiv> unat n div 2"
  shows "\<exists>f r. fold (\<lambda>chirp_idx. range_fft_chirp run rfft mean_removal win n) [0..<m]
              (frame, 0, range_buf, 0) = (f, m * N, r, 2 * (m * h)) \<and>
           (\<forall>k < m. r (2 * (k * h) + 1) = 0) \<and>
           ((\<forall>xs. length xs = N \<longrightarrow> 2 * h \<le> length (run rfft xs 0)) \<longrightarrow>
            (\<forall>k < m. load r (2 * (k * h)) (2 * h) =
                       take (2 * h) ((run rfft (load f (k * N) N) 0)[1 := 0])))"
proof (induction m)
  case 0
  show ?case by simp
next
  case (Suc m)
  then obtain f r where
    st: "fold (\<lambda>chirp_idx. range_fft_chirp run rfft mean_removal win n) [0..<m]
           (frame, 0, range_buf, 0) = (f, m * N, r, 2 * (m * h))"
    and dc: "\<forall>k < m. r (2 * (k * h) + 1) = 0"
    and rows: "(\<forall>xs. length xs = N \<longrightarrow> 2 * h \<le> length (run rfft xs 0)) \<longrightarrow>
            (\<forall>k < m. load r (2 * (k * h)) (2 * h) =
                       take (2 * h) ((run rfft (load f (k * N) N) 0)[1 := 0]))"
    by blast
  define f' where "f' = prepared mean_removal win n f (m * N)"
  define out where "out = run rfft (load f' (m * N) N) 0"
  define r' where "r' = (store r (2 * (m * h)) out)(2 * (m * h) + 1 := 0)"
  have step: "fold (\<lambda>chirp_idx. range_fft_chirp run rfft mean_removal win n) [0..<Suc m]
           (frame, 0, range_buf, 0) = (f', Suc m * N, r', 2 * (Suc m * h))"
    by (simp add: st range_fft_chirp_eq f'_def out_def r'_def N_def h_def algebra_simps)
  have f_old: "f' a = f a" if "a < m * N" for a
    unfolding f'_def using that by (simp add: prepared_outside)
  have r_old: "r' a = r a" if "a < 2 * (m * h)" for a
    unfolding r'_def using that by (simp add: store_outside)
  have below: "2 * (k * h) + i < 2 * (m * h)" if "k < m" "i < 2 * h" for k i
  proof -
    from that(1) have "Suc k \<le> m" by simp
    then have "Suc k * h \<le> m * h" by (rule mult_le_mono1)
    with that(2) show ?thesis by simp
  qed
  have dc': "r' (2 * (k * h) + 1) = 0" if "k < Suc m" for k
  proof (cases "k < m \<and> 0 < h")
    case True
    with below[of k 1] have "2 * (k * h) + 1 < 2 * (m * h)" by simp
    with r_old dc True show ?thesis by simp
  next
    case False
    with that have "k * h = m * h" by (cases "h = 0") (auto simp: less_Suc_eq)
    then show ?thesis by (simp add: r'_def)
  qed
  have rows': "load r' (2 * (k * h)) (2 * h) = take (2 * h) ((run rfft (load f' (k * N) N) 0)[1 := 0])"
    if len: "\<forall>xs. length xs = N \<longrightarrow> 2 * h \<le> length (run rfft xs 0)" and k: "k < Suc m" for k
  proof (cases "k < m")
    case True
    have "load r' (2 * (k * h)) (2 * h) = load r (2 * (k * h)) (2 * h)"
      by (rule load_cong) (simp add: r_old below[OF True])
    moreover have "load f' (k * N) N = load f (k * N) N"
    proof (rule load_cong)
      fix i assume "i < N"
      from True have "Suc k \<le> m" by simp
      then have "Suc k * N \<le> m * N" by (rule mult_le_mono1)
      with \<open>i < N\<close> have "k * N + i < m * N" by simp
      then show "f' (k * N + i) = f (k * N + i)" by (rule f_old)
    qed
    ultimately show ?thesis using rows len True by simp
  next
    case False
    with k have "k = m" by simp
    moreover have "2 * h \<le> length out" unfolding out_def using len by simp
    ultimately show ?thesis
      unfolding r'_def using row_after_store[of h out r "2 * (m * h)"] by (simp add: out_def)
  qed
  show ?case
    using step dc' rows' by blast
qed

lemma range_fft_beyond:
  fixes n :: "16 word"
  defines "N \<equiv> unat n" and "h \<equiv> unat n div 2"
  assumes len: "\<forall>xs. length xs = N \<longrightarrow> length (run rfft xs 0) \<le> 2 * h" and h: "0 < h"
  shows "\<exists>f r. fold (\<lambda>chirp_idx. range_fft_chirp run rfft mean_removal win n) [0..<m]
              (frame, 0, range_buf, 0) = (f, m * N, r, 2 * (m * h)) \<and>
           (\<forall>a \<ge> 2 * (m * h). r a = range_buf a)"
proof (induction m)
  case 0
  show ?case by simp
next
  case (Suc m)
  then obtain f r where
    st: "fold (\<lambda>chirp_idx. range_fft_chirp run rfft mean_removal win n) [0..<m]
           (frame, 0, range_buf, 0) = (f, m * N, r, 2 * (m * h))"
    and rest: "\<forall>a \<ge> 2 * (m * h). r a = range_buf a"
    by blast
  define f' where "f' = prepared mean_removal win n f (m * N)"
  define out where "out = run rfft (load f' (m * N) N) 0"
  define r' where "r' = (store r (2 * (m * h)) out)(2 * (m * h) + 1 := 0)"
  have step: "fold (\<lambda>chirp_idx. range_fft_chirp run rfft mean_removal win n) [0..<Suc m]
           (frame, 0, range_buf, 0) = (f', Suc m * N, r', 2 * (Suc m * h))"
    by (simp add: st range_fft_chirp_eq f'_def out_def r'_def N_def h_def algebra_simps)
  have "length out \<le> 2 * h" unfolding out_def using len by simp
  then have "r' a = range_buf a" if "2 * (Suc m * h) \<le> a" for a
    unfolding r'_def using that h rest by (simp add: store_outside)
  with step show ?case by blast
qed

lemma upt2: "[0..<2::nat] = [0, 1]" by (simp add: upt_conv_Cons)
lemma upt4: "[0..<4::nat] = [0, 1, 2, 3]" by (simp add: upt_conv_Cons)

text \<open>
  C6 (the rows of the range spectrum and their DC bins). When \<^verbatim>\<open>ifx_range_fft_f32\<close> returns
  \<^verbatim>\<open>IFX_SENSOR_DSP_STATUS_OK\<close>, the imaginary part of bin 0 of every row is 0 whatever the
  transform wrote. When the transform writes at least the \<open>n div 2\<close> complex bins of a row,
  row \<open>k\<close> of the output, the \<open>n div 2\<close> complex elements from complex offset
  \<open>k * (n div 2)\<close> on, holds the first \<open>n div 2\<close> bins of the transform of chirp \<open>k\<close> (as
  the call leaves that chirp in the frame), with that one element set to 0. When the
  transform writes no more than these bins, the output is unchanged behind the last row.
\<close>

theorem range_fft_output_rows:
  assumes "ifx_range_fft_f32 init run rfft (Some frame) (Some range_buf) mean_removal win n chirps =
             Inr (IFX_SENSOR_DSP_STATUS_OK, rfft', frame', range')"
  shows "(\<forall>k < unat chirps. range' (2 * (k * (unat n div 2)) + 1) = 0) \<and>
         ((\<forall>xs. length xs = unat n \<longrightarrow> 2 * (unat n div 2) \<le> length (run rfft' xs 0)) \<longrightarrow>
          (\<forall>k < unat chirps.
             load range' (2 * (k * (unat n div 2))) (2 * (unat n div 2)) =
               take (2 * (unat n div 2))
                 ((run rfft' (load frame' (k * unat n) (unat n)) 0)[1 := 0]))) \<and>
         ((\<forall>xs. length xs = unat n \<longrightarrow> length (run rfft' xs 0) \<le> 2 * (unat n div 2)) \<and>
          0 < unat n div 2 \<longrightarrow>
          (\<forall>a \<ge> 2 * (unat chirps * (unat n div 2)). range' a = range_buf a))"
proof -
  from range_fft_rows[of run rfft' mean_removal win n "unat chirps" frame range_buf]
  obtain f r where
    st: "fold (\<lambda>chirp_idx. range_fft_chirp run rfft' mean_removal win n) [0..<unat chirps]
           (frame, 0, range_buf, 0) = (f, unat chirps * unat n, r, 2 * (unat chirps * (unat n div 2)))"
    and dc: "\<forall>k < unat chirps. r (2 * (k * (unat n div 2)) + 1) = 0"
    and rows: "(\<forall>xs. length xs = unat n \<longrightarrow> 2 * (unat n div 2) \<le> length (run rfft' xs 0)) \<longrightarrow>
          (\<forall>k < unat chirps.
             load r (2 * (k * (unat n div 2))) (2 * (unat n div 2)) =
               take (2 * (unat n div 2)) ((run rfft' (load f (k * unat n) (unat n)) 0)[1 := 0]))"
    by blast
  from assms have res: "frame' = f \<and> range' = r"
    by (auto simp: ifx_range_fft_f32_def Let_def st IFX_SENSOR_DSP_STATUS_OK_def
        IFX_SENSOR_DSP_ARGUMENT_ERROR_def split: if_splits prod.splits)
  have beyond: "\<forall>a \<ge> 2 * (unat chirps * (unat n div 2)). r a = range_buf a"
    if "\<forall>xs. length xs = unat n \<longrightarrow> length (run rfft' xs 0) \<le> 2 * (unat n div 2)"
      and "0 < unat n div 2"
    using range_fft_beyond[where run = run and rfft = rfft' and n = n and m = "unat chirps"
        and mean_removal = mean_removal and win = win and frame = frame
        and range_buf = range_buf] that st
    by auto
  from res dc rows beyond show ?thesis by blast
qed

theorem range_fft_output_rows_witness:
  "ifx_range_fft_f32 (\<lambda>q m. (ARM_MATH_SUCCESS, q\<lparr>fftLenRFFT := m\<rparr>)) (\<lambda>q xs flag. xs) rfft_zero
      (Some (\<lambda>i. real i + 1)) (Some (\<lambda>i. 9)) False None 4 2 =
     Inr (IFX_SENSOR_DSP_STATUS_OK, \<lparr>fftLenRFFT = 4, rfft_tables = 0\<rparr>, (\<lambda>i. real i + 1),
          (store ((store (\<lambda>i. 9) 0 [1, 2, 3, 4])(1 := 0)) 4 [5, 6, 7, 8])(5 := 0)) \<and>
   load ((store ((store (\<lambda>i. 9) 0 [1, 2, 3, 4])(1 := 0)) 4 [5, 6, 7, 8])(5 := 0)) 0 8 =
     [1, 0, 3, 4, 5, 0, 7, 8]"
proof -
  have eq: "ifx_range_fft_f32 (\<lambda>q m. (ARM_MATH_SUCCESS, q\<lparr>fftLenRFFT := m\<rparr>)) (\<lambda>q xs flag. xs) rfft_zero
      (Some (\<lambda>i. real i + 1)) (Some (\<lambda>i. 9)) False None 4 2 =
     Inr (IFX_SENSOR_DSP_STATUS_OK, \<lparr>fftLenRFFT = 4, rfft_tables = 0\<rparr>, (\<lambda>i. real i + 1),
          (store ((store (\<lambda>i. 9) 0 [1, 2, 3, 4])(1 := 0)) 4 [5, 6, 7, 8])(5 := 0))"
    by (simp add: ifx_range_fft_f32_def rfft_zero_def range_fft_chirp_def load_def
        Let_def upt2 upt4)
  have "[0..<8::nat] = [0, 1, 2, 3, 4, 5, 6, 7]" by (simp add: upt_conv_Cons)
  with range_fft_output_rows[OF eq] eq show ?thesis
    by (simp add: load_def store_def)
qed

section \<open>Properties of the rotation and the spectrum shift\<close>

lemma shift_down:
  "fold (\<lambda>j v. v(off + j := v (off + (j + 1)))) [0..<m] (v :: nat \<Rightarrow> 'a) =
     (\<lambda>a. if off \<le> a \<and> a < off + m then v (a + 1) else v a)"
proof (induction m)
  case 0
  show ?case by (auto simp: fun_eq_iff)
next
  case (Suc m)
  define F where "F = (\<lambda>j (v :: nat \<Rightarrow> 'a). v(off + j := v (off + (j + 1))))"
  have "fold F [0..<Suc m] v = F m (fold F [0..<m] v)" by simp
  also have "\<dots> = F m (\<lambda>a. if off \<le> a \<and> a < off + m then v (a + 1) else v a)"
    by (simp only: F_def Suc)
  also have "\<dots> = (\<lambda>a. if off \<le> a \<and> a < off + Suc m then v (a + 1) else v a)"
    unfolding F_def by (auto simp: fun_eq_iff)
  finally show ?case unfolding F_def .
qed

lemma rotate_pass_eq:
  "rotate_pass v off len =
     (\<lambda>a. if off \<le> a \<and> a < off + unat (len - 1) then v (a + 1)
          else if a = off + unat (len - 1) then v off else v a)"
  unfolding rotate_pass_def shift_down Let_def by (simp add: fun_eq_iff)

lemma load_rotate_pass:
  "load (rotate_pass v off len) off (Suc (unat (len - 1))) = rotate1 (load v off (Suc (unat (len - 1))))"
proof (rule nth_equalityI)
  show "length (load (rotate_pass v off len) off (Suc (unat (len - 1)))) =
        length (rotate1 (load v off (Suc (unat (len - 1)))))"
    by (simp add: load_def)
next
  fix i assume "i < length (load (rotate_pass v off len) off (Suc (unat (len - 1))))"
  then have i: "i < Suc (unat (len - 1))" by (simp add: load_def)
  have ne: "load v off (Suc (unat (len - 1))) \<noteq> []" by (simp add: load_def del: upt_Suc)
  show "load (rotate_pass v off len) off (Suc (unat (len - 1))) ! i =
        rotate1 (load v off (Suc (unat (len - 1)))) ! i"
    using i unfolding rotate1_hd_tl[OF ne] 
    by (cases "i = unat (len - 1)") (auto simp: load_def rotate_pass_eq nth_append hd_map hd_upt nth_tl simp del: upt_Suc)
qed

lemma rotate_pass_outside:
  "a < off \<or> off + unat (len - 1) < a \<Longrightarrow> rotate_pass v off len a = v a"
  by (auto simp: rotate_pass_eq)

lemma passes_load:
  "load (((\<lambda>v. rotate_pass v off len) ^^ n) v) off (Suc (unat (len - 1))) =
     rotate n (load v off (Suc (unat (len - 1))))"
  by (induction n) (simp_all add: load_rotate_pass del: upt_Suc)

lemma passes_outside:
  "a < off \<or> off + unat (len - 1) < a \<Longrightarrow> ((\<lambda>v. rotate_pass v off len) ^^ n) v a = v a"
  by (induction n) (simp_all add: rotate_pass_outside)

lemma span_double:
  fixes len :: "32 word"
  assumes "0 < unat len" "unat len \<le> 2 ^ 31"
  shows "Suc (unat (len * 2 - 1)) = 2 * unat len"
proof -
  have "word_of_nat (2 * unat len - 1) = len * 2 - 1"
    using assms(1) by (simp add: of_nat_diff)
  moreover have "2 * unat len - 1 < 2 ^ LENGTH(32)" using assms by simp
  ultimately have "unat (len * 2 - 1) = 2 * unat len - 1" by (rule of_nat_inverse)
  with assms(1) show ?thesis by simp
qed

lemma odd_word: "(len :: 32 word) mod 2 = 1 \<longleftrightarrow> odd (unat len)"
proof -
  have "len mod 2 = 1 \<longleftrightarrow> unat (len mod 2) = unat (1 :: 32 word)"
    by (simp only: word_unat_eq_iff)
  also have "\<dots> \<longleftrightarrow> odd (unat len)"
    by (simp add: unat_mod odd_iff_mod_2_eq_one)
  finally show ?thesis .
qed

lemma succ_word:
  fixes len :: "32 word"
  assumes "unat len \<le> 2 ^ 31"
  shows "unat (len + 1) = unat len + 1"
proof -
  have "unat len + unat (1 :: 32 word) < 2 ^ LENGTH(32)" using assms by simp
  then show ?thesis by (simp add: unat_add_lem[THEN iffD1])
qed

lemma cload_pairs: "cload v off n = pairs (load v off (2 * n))"
  by (simp add: cload_def pairs_def load_def)

lemma odd_mod_double: "(2 * a + 1) mod (2 * n) = 2 * (a mod n) + (1::nat)"
  by (simp add: mod_mult2_eq)

lemma even_mod_double: "(2 * a) mod (2 * n) = 2 * (a mod n :: nat)"
  by (simp add: mod_mult2_eq)

lemma pairs_rotate:
  assumes "even (length xs)"
  shows "pairs (rotate (2 * c) xs) = rotate c (pairs xs)"
proof (rule nth_equalityI)
  show "length (pairs (rotate (2 * c) xs)) = length (rotate c (pairs xs))"
    by (simp add: pairs_def)
next
  fix i assume "i < length (pairs (rotate (2 * c) xs))"
  then have i: "i < length xs div 2" by (simp add: pairs_def)
  define n where "n = length xs div 2"
  from assms have len: "length xs = 2 * n" by (auto simp: n_def)
  from i have n: "0 < n" "i < n" by (simp_all add: n_def)
  have a: "(2 * c + 2 * i) mod (2 * n) = 2 * ((c + i) mod n)"
    using even_mod_double[of "c + i" n] by (simp add: algebra_simps)
  have b: "(2 * c + (2 * i + 1)) mod (2 * n) = 2 * ((c + i) mod n) + 1"
    using odd_mod_double[of "c + i" n] by (simp add: algebra_simps)
  have m: "(c + i) mod n < n" using n(1) by simp
  have "pairs (rotate (2 * c) xs) ! i =
          Complex (rotate (2 * c) xs ! (2 * i)) (rotate (2 * c) xs ! (2 * i + 1))"
    using n(2) by (simp add: pairs_def len)
  also have "\<dots> = Complex (xs ! (2 * ((c + i) mod n))) (xs ! (2 * ((c + i) mod n) + 1))"
  proof -
    have "2 * i < length xs" "2 * i + 1 < length xs" using n(2) len by simp_all
    then have "rotate (2 * c) xs ! (2 * i) = xs ! ((2 * c + 2 * i) mod (2 * n))"
      "rotate (2 * c) xs ! (2 * i + 1) = xs ! ((2 * c + (2 * i + 1)) mod (2 * n))"
      by (simp_all only: nth_rotate len)
    then show ?thesis by (simp only: a b)
  qed
  also have "\<dots> = pairs xs ! ((c + i) mod n)"
    using m by (simp add: pairs_def len)
  also have "\<dots> = rotate c (pairs xs) ! i"
    using n(2) by (simp add: nth_rotate pairs_def len)
  finally show "pairs (rotate (2 * c) xs) ! i = rotate c (pairs xs) ! i" .
qed

lemma ifx_rotate_f32_row:
  fixes len :: "32 word"
  assumes "0 < unat len" "unat len \<le> 2 ^ 31"
  shows "load (ifx_rotate_f32 v off (len * 2) k) off (2 * unat len) =
           rotate (unat k) (load v off (2 * unat len))"
    and "a < off \<or> off + 2 * unat len \<le> a \<Longrightarrow> ifx_rotate_f32 v off (len * 2) k a = v a"
proof -
  note s = span_double[OF assms]
  from passes_load[where off = off and len = "len * 2" and n = "unat k" and v = v]
  show "load (ifx_rotate_f32 v off (len * 2) k) off (2 * unat len) =
           rotate (unat k) (load v off (2 * unat len))"
    unfolding ifx_rotate_f32_def s .
  assume "a < off \<or> off + 2 * unat len \<le> a"
  with s have "a < off \<or> off + unat (len * 2 - 1) < a" by linarith
  then show "ifx_rotate_f32 v off (len * 2) k a = v a"
    unfolding ifx_rotate_f32_def by (rule passes_outside)
qed

lemma shift_amount:
  fixes len :: "32 word"
  assumes "unat len \<le> 2 ^ 31"
  shows "unat (if len mod 2 = 1 then len + 1 else len) = 2 * shift_count len"
  using assms by (auto simp: odd_word succ_word shift_count_def)

lemma shift_rows:
  fixes len :: "32 word"
  assumes "0 < unat len" "unat len \<le> 2 ^ 31"
  shows "\<exists>w. fold (\<lambda>i (v, off).
                 (ifx_rotate_f32 v off (len * 2) (if len mod 2 = 1 then len + 1 else len),
                  off + 2 * unat len))
            [0..<m] (v, 0) = (w, 2 * (m * unat len)) \<and>
           (\<forall>i < m. load w (2 * (i * unat len)) (2 * unat len) =
               rotate (2 * shift_count len) (load v (2 * (i * unat len)) (2 * unat len))) \<and>
           (\<forall>a \<ge> 2 * (m * unat len). w a = v a)"
proof (induction m)
  case 0
  show ?case by simp
next
  case (Suc m)
  define L where "L = unat len"
  define kw where "kw = (if len mod 2 = 1 then len + 1 else len)"
  define F where "F = (\<lambda>(i::nat) (v, off). (ifx_rotate_f32 v off (len * 2) kw, off + 2 * L))"
  from Suc obtain w where
    st: "fold F [0..<m] (v, 0) = (w, 2 * (m * L))"
    and rows: "\<forall>i < m. load w (2 * (i * L)) (2 * L) =
               rotate (2 * shift_count len) (load v (2 * (i * L)) (2 * L))"
    and rest: "\<forall>a \<ge> 2 * (m * L). w a = v a"
    unfolding L_def kw_def F_def by blast
  define w' where "w' = ifx_rotate_f32 w (2 * (m * L)) (len * 2) kw"
  have "fold F [0..<Suc m] (v, 0) = F m (fold F [0..<m] (v, 0))" by simp
  also have "\<dots> = (w', 2 * (m * L) + 2 * L)" unfolding st by (simp add: F_def w'_def)
  finally have step: "fold F [0..<Suc m] (v, 0) = (w', 2 * (Suc m * L))" by simp
  have row: "load w' (2 * (m * L)) (2 * L) = rotate (2 * shift_count len) (load w (2 * (m * L)) (2 * L))"
    unfolding w'_def L_def kw_def
    using ifx_rotate_f32_row(1)[OF assms] shift_amount[OF assms(2)] by simp
  have out: "w' a = w a" if "a < 2 * (m * L) \<or> 2 * (m * L) + 2 * L \<le> a" for a
    unfolding w'_def using ifx_rotate_f32_row(2)[OF assms, of a "2 * (m * L)" w kw] that
    by (simp add: L_def)
  have same: "load w (2 * (m * L)) (2 * L) = load v (2 * (m * L)) (2 * L)"
    by (rule load_cong) (simp add: rest)
  have rows': "load w' (2 * (i * L)) (2 * L) = rotate (2 * shift_count len) (load v (2 * (i * L)) (2 * L))"
    if "i < Suc m" for i
  proof (cases "i < m")
    case True
    then have "Suc i \<le> m" by simp
    then have le: "Suc i * L \<le> m * L" by (rule mult_le_mono1)
    have "load w' (2 * (i * L)) (2 * L) = load w (2 * (i * L)) (2 * L)"
    proof (rule load_cong)
      fix j assume "j < 2 * L"
      with le have "2 * (i * L) + j < 2 * (m * L)" by simp
      then show "w' (2 * (i * L) + j) = w (2 * (i * L) + j)" by (simp add: out)
    qed
    with rows True show ?thesis by simp
  next
    case False
    with that have "i = m" by simp
    with row same show ?thesis by simp
  qed
  have rest': "w' a = v a" if "2 * (Suc m * L) \<le> a" for a
  proof -
    from that have "2 * (m * L) + 2 * L \<le> a" by (simp add: algebra_simps)
    then show ?thesis using out[of a] rest by simp
  qed
  show ?case
    using step rows' rest' unfolding L_def kw_def F_def by blast
qed

lemma mset_rotate: "mset (rotate n xs) = mset xs"
proof -
  have "mset (rotate n xs) = mset (drop (n mod length xs) xs) + mset (take (n mod length xs) xs)"
    unfolding rotate_drop_take[of n xs] by simp
  also have "\<dots> = mset (take (n mod length xs) xs @ drop (n mod length xs) xs)"
    by (simp only: mset_append add.commute)
  finally show ?thesis by (simp only: append_take_drop_id)
qed

lemma nth_cload: "i < n \<Longrightarrow> cload v off n ! i = Complex (v (off + 2 * i)) (v (off + 2 * i + 1))"
  by (simp add: cload_def)

lemma length_cload: "length (cload v off n) = n"
  by (simp add: cload_def)

lemma upt3: "[0..<3::nat] = [0, 1, 2]" by (simp add: upt_conv_Cons)

lemma upt8: "[0..<8::nat] = [0, 1, 2, 3, 4, 5, 6, 7]" by (simp add: upt_conv_Cons)

text \<open>
  C10 (\<^verbatim>\<open>ifx_shift_cfft_f32\<close> rotates every row), for row lengths up to \<open>2 ^ 31\<close>. For
  \<open>0 < len \<le> 2 ^ 31\<close> the call leaves every one of the \<open>dim\<close> rows of \<open>len\<close> complex elements
  rotated to the left by \<open>len div 2\<close> complex positions when \<open>len\<close> is even and by
  \<open>(len + 1) div 2\<close> when it is odd, with the same multiset of elements, and changes nothing
  behind the last row.
\<close>

theorem shift_cfft_rotates_rows:
  fixes len :: "32 word"
  assumes "0 < unat len" "unat len \<le> 2 ^ 31"
  shows "\<exists>w. ifx_shift_cfft_f32 (Some v) len dim' = Inr w \<and>
           (\<forall>i < unat dim'.
              cload w (2 * (i * unat len)) (unat len) =
                rotate (if even (unat len) then unat len div 2 else (unat len + 1) div 2)
                  (cload v (2 * (i * unat len)) (unat len)) \<and>
              mset (cload w (2 * (i * unat len)) (unat len)) =
                mset (cload v (2 * (i * unat len)) (unat len))) \<and>
           (\<forall>a \<ge> 2 * (unat dim' * unat len). w a = v a)"
proof -
  from shift_rows[OF assms, of "unat dim'" v] obtain w where
    st: "fold (\<lambda>i (v, off).
                 (ifx_rotate_f32 v off (len * 2) (if len mod 2 = 1 then len + 1 else len),
                  off + 2 * unat len))
            [0..<unat dim'] (v, 0) = (w, 2 * (unat dim' * unat len))"
    and rows: "\<forall>i < unat dim'. load w (2 * (i * unat len)) (2 * unat len) =
               rotate (2 * shift_count len) (load v (2 * (i * unat len)) (2 * unat len))"
    and rest: "\<forall>a \<ge> 2 * (unat dim' * unat len). w a = v a"
    by blast
  have res: "ifx_shift_cfft_f32 (Some v) len dim' = Inr w"
    by (simp add: ifx_shift_cfft_f32_def st)
  have crow: "cload w (2 * (i * unat len)) (unat len) =
      rotate (shift_count len) (cload v (2 * (i * unat len)) (unat len))" if "i < unat dim'" for i
    using rows that by (simp add: cload_pairs pairs_rotate)
  have "mset (cload w (2 * (i * unat len)) (unat len)) =
      mset (cload v (2 * (i * unat len)) (unat len))" if "i < unat dim'" for i
    using crow[OF that] by (simp add: mset_rotate)
  with res crow rest show ?thesis
    unfolding shift_count_def by blast
qed

theorem shift_cfft_rotates_rows_witness:
  "(case ifx_shift_cfft_f32 (Some (\<lambda>a. real a)) 2 2 of Inl e \<Rightarrow> [] | Inr w \<Rightarrow> load w 0 8) =
     [2, 3, 0, 1, 6, 7, 4, 5]"
proof -
  have twice: "(f ^^ 2) = (\<lambda>x. f (f x))" for f :: "(nat \<Rightarrow> real) \<Rightarrow> (nat \<Rightarrow> real)"
    by (simp add: numeral_2_eq_2 fun_eq_iff)
  have words: "(2 :: 32 word) mod 2 \<noteq> 1" "unat (2 :: 32 word) = 2" "unat ((2 :: 32 word) * 2 - 1) = 3"
    by simp_all
  from shift_cfft_rotates_rows[of 2 "\<lambda>a. real a" 2] show ?thesis
    by (simp add: ifx_shift_cfft_f32_def ifx_rotate_f32_def rotate_pass_def load_def Let_def
        words twice upt2 upt3 upt8)
qed

text \<open>
  C10 as stated, for every \<open>len > 0\<close>, fails where the \<^verbatim>\<open>uint32_t\<close> arithmetic wraps: for
  \<open>len = 2 ^ 32 - 1\<close>, which is odd, the rotation count \<open>len + 1\<close> is 0 and the row is left
  as it is, while a rotation by \<open>(len + 1) div 2 = 2 ^ 31\<close> positions moves the one non-zero
  element of this row away from position 0.
\<close>

theorem shift_cfft_wraps_counterexample:
  "ifx_shift_cfft_f32 (Some (\<lambda>a. if a = 0 then 1 else 0)) 0xFFFFFFFF 1 =
     Inr (\<lambda>a. if a = 0 then 1 else 0) \<and>
   cload (\<lambda>a. if a = 0 then 1 else 0) 0 (unat (0xFFFFFFFF :: 32 word)) \<noteq>
     rotate ((unat (0xFFFFFFFF :: 32 word) + 1) div 2)
       (cload (\<lambda>a. if a = 0 then 1 else 0) 0 (unat (0xFFFFFFFF :: 32 word)))"
proof
  have words: "(0xFFFFFFFF :: 32 word) mod 2 = 1" "(0xFFFFFFFF :: 32 word) + 1 = 0"
    "unat (1 :: 32 word) = 1"
    by simp_all
  have one: "[0..<1::nat] = [0]" by simp
  show "ifx_shift_cfft_f32 (Some (\<lambda>a. if a = 0 then 1 else 0)) 0xFFFFFFFF 1 =
     Inr (\<lambda>a. if a = 0 then 1 else 0)"
    unfolding ifx_shift_cfft_f32_def ifx_rotate_f32_def words one by simp
next
  define v :: "nat \<Rightarrow> real" where "v = (\<lambda>a. if a = 0 then 1 else 0)"
  define n :: nat where "n = 4294967295"
  have n: "unat (0xFFFFFFFF :: 32 word) = n" by (simp add: n_def)
  have half: "(n + 1) div 2 = 2147483648" by (simp add: n_def)
  have "cload v 0 n ! 0 = Complex 1 0"
    by (subst nth_cload) (simp_all add: n_def v_def)
  moreover have "rotate 2147483648 (cload v 0 n) ! 0 = cload v 0 n ! 2147483648"
    by (subst nth_rotate) (simp_all add: length_cload n_def)
  moreover have "cload v 0 n ! 2147483648 = Complex 0 0"
    by (subst nth_cload) (simp_all add: n_def v_def)
  ultimately have "cload v 0 n \<noteq> rotate ((n + 1) div 2) (cload v 0 n)"
    unfolding half by (metis complex.inject zero_neq_one)
  then show "cload (\<lambda>a. if a = 0 then 1 else 0) 0 (unat (0xFFFFFFFF :: 32 word)) \<noteq>
     rotate ((unat (0xFFFFFFFF :: 32 word) + 1) div 2)
       (cload (\<lambda>a. if a = 0 then 1 else 0) 0 (unat (0xFFFFFFFF :: 32 word)))"
    unfolding n v_def .
qed

section \<open>Properties of the monopulse angle\<close>








section \<open>Properties of the window generators\<close>















end
